theory Spec2Isabelle
  imports Complex_Main
begin

section \<open>JavaScript values\<close>

text \<open>
  The library (\<^verbatim>\<open>src/js/general-utils.js\<close>) is a set of thin wrappers around the
  GSAP timeline, the DOM and \<^verbatim>\<open>fetch\<close>. Values that the wrappers only pass on
  are kept as \<open>jsval\<close>; a number among them is carried as a rational (\<^verbatim>\<open>1.5\<close>,
  \<^verbatim>\<open>0.5\<close>, \<^verbatim>\<open>-1\<close> are exact doubles). The numbers the code multiplies, compares
  with zero or prints (\<^verbatim>\<open>delay * index\<close>, \<^verbatim>\<open>secondsOffset\<close>) are of the type
  \<open>jsnumber\<close> below.
\<close>

datatype level = Log | Error

datatype exn = TypeError | HierarchyRequestError | Thrown string

datatype log_arg = LStr string | LExn exn

type_synonym console = "(level \<times> log_arg list) list"

datatype jsval =
    JUndefined
  | JNull
  | JBool bool
  | JNum rat
  | JStr string
  | JArr "jsval list"
  | JObj "(string \<times> jsval) list"
  | JFn "console \<Rightarrow> console"

text \<open>A parameter with a default value takes the default exactly when the argument is
  \<^verbatim>\<open>undefined\<close> (also when it is left out).\<close>

definition dflt :: "jsval \<Rightarrow> jsval \<Rightarrow> jsval" where
  "dflt d v = (if v = JUndefined then d else v)"

subsection \<open>Numbers\<close>

text \<open>
  A JavaScript number is a double. A finite one is given here by the decimal that
  \<^verbatim>\<open>Number::toString\<close> prints for it: \<open>JFinite neg s n\<close> is the number with sign
  \<open>neg\<close> whose decimal digits are those of \<open>s\<close> and whose decimal point stands
  after the \<open>n\<close>-th digit (\<open>s \<times> 10^(n - k)\<close> for \<open>k\<close> digits); \<open>s = 0\<close> is
  zero, of either sign. So \<^verbatim>\<open>0.5\<close> is \<open>JFinite False 5 0\<close>, \<^verbatim>\<open>-1.5\<close> is
  \<open>JFinite True 15 1\<close> and \<^verbatim>\<open>1e21\<close> is \<open>JFinite False 1 22\<close>. Every double has
  such a form; a form with other digits than the ones printed for a double stands for
  no input of the code.

  \<open>js_num_str\<close> is \<^verbatim>\<open>Number::toString\<close> of ECMAScript, which a template literal
  applies: \<^verbatim>\<open>NaN\<close>, \<^verbatim>\<open>Infinity\<close>, \<^verbatim>\<open>0\<close> for both zeros, a minus sign, and then
  for the digits without trailing zeros (\<open>k\<close> of them) the plain numeral when
  \<open>k \<le> n \<le> 21\<close>, a decimal point inside when \<open>0 < n \<le> 21\<close>, leading
  \<^verbatim>\<open>0.\<close> when \<open>-6 < n \<le> 0\<close> and the exponent form otherwise.
\<close>

definition digit_char :: "nat \<Rightarrow> char" where
  "digit_char n = ''0123456789'' ! n"

fun digits :: "nat \<Rightarrow> string" where
  "digits n = (if n < 10 then [digit_char n] else digits (n div 10) @ [digit_char (n mod 10)])"

declare digits.simps [simp del]

fun strip10 :: "nat \<Rightarrow> nat" where
  "strip10 s = (if 0 < s \<and> s mod 10 = 0 then strip10 (s div 10) else s)"

declare strip10.simps [simp del]

datatype jsnumber = JFinite bool nat int | JNaN | JInfinity bool

definition layout :: "nat \<Rightarrow> int \<Rightarrow> string" where
  "layout s n =
    (let ds = digits (strip10 s); k = int (length ds)
     in if k \<le> n \<and> n \<le> 21 then ds @ replicate (nat (n - k)) CHR ''0''
        else if 0 < n \<and> n \<le> 21 then take (nat n) ds @ ''.'' @ drop (nat n) ds
        else if - 6 < n \<and> n \<le> 0 then ''0.'' @ replicate (nat (- n)) CHR ''0'' @ ds
        else let e = n - 1;
                 es = (if e < 0 then ''-'' else ''+'') @ digits (nat \<bar>e\<bar>)
             in if k = 1 then ds @ ''e'' @ es
                else take 1 ds @ ''.'' @ drop 1 ds @ ''e'' @ es)"

definition js_num_str :: "jsnumber \<Rightarrow> string" where
  "js_num_str x =
    (case x of
       JNaN \<Rightarrow> ''NaN''
     | JInfinity neg \<Rightarrow> (if neg then ''-Infinity'' else ''Infinity'')
     | JFinite neg s n \<Rightarrow>
         if s = 0 then ''0'' else (if neg then ''-'' else []) @ layout s n)"

text \<open>\<^verbatim>\<open>x === 0\<close> for a number \<open>x\<close>: true of both zeros, false of \<^verbatim>\<open>NaN\<close>.\<close>

definition is_zero :: "jsnumber \<Rightarrow> bool" where
  "is_zero x = (case x of JFinite neg s n \<Rightarrow> s = 0 | JNaN \<Rightarrow> False | JInfinity neg \<Rightarrow> False)"

text \<open>
  The integers of magnitude up to \<open>2^53 - 1\<close> (the safe integers) are doubles, and
  their product is the exact one when it is again a safe integer. \<open>js_times\<close> is
  \<^verbatim>\<open>a * b\<close>: it computes that case. Every other product (of a fraction, a rounded
  result, an overflow, \<^verbatim>\<open>NaN\<close>) is the one of the platform's arithmetic, the
  parameter \<open>multiply\<close>.
\<close>

definition max_safe :: int where
  "max_safe = 9007199254740991"

text \<open>The number of a safe integer (a literal such as \<^verbatim>\<open>0\<close>, an array index).\<close>

definition num_of_int :: "int \<Rightarrow> jsnumber" where
  "num_of_int v = JFinite (v < 0) (nat \<bar>v\<bar>) (int (length (digits (nat \<bar>v\<bar>))))"



text \<open>The decimal numeral of an integer.\<close>

definition int_str :: "int \<Rightarrow> string" where
  "int_str v = (if v < 0 then ''-'' else []) @ digits (nat \<bar>v\<bar>)"

section \<open>Reference tables\<close>

definition TransformOrigin :: "(string \<times> string) list" where
  "TransformOrigin =
    [(''topLeft'', ''0% 0%''),
     (''topCenter'', ''50% 0%''),
     (''topRight'', ''100% 0%''),
     (''centerLeft'', ''0% 50%''),
     (''center'', ''50% 50%''),
     (''centerRight'', ''100% 50%''),
     (''bottomLeft'', ''0% 100%''),
     (''bottomCenter'', ''50% 100%''),
     (''bottomRight'', ''100% 100%'')]"

definition PositionReference :: "(string \<times> jsval) list" where
  "PositionReference =
    [(''centerTop'', JArr [JNum (1/2), JNum 0]),
     (''centerBottom'', JArr [JNum (1/2), JNum 1]),
     (''centerCenter'', JArr [JNum (1/2), JNum (1/2)]),
     (''topLeft'', JArr [JNum 0, JNum 0]),
     (''topCenter'', JArr [JNum (1/2), JNum 0]),
     (''topRight'', JArr [JNum 1, JNum 0]),
     (''centerLeft'', JArr [JNum 0, JNum (1/2)]),
     (''centerRight'', JArr [JNum 1, JNum (1/2)]),
     (''bottomLeft'', JArr [JNum 0, JNum 1]),
     (''bottomCenter'', JArr [JNum (1/2), JNum 1]),
     (''bottomRight'', JArr [JNum 1, JNum 1])]"

section \<open>The timeline\<close>

text \<open>
  The timeline belongs to the caller and to the animation engine. The wrappers touch it
  through \<^verbatim>\<open>timeline.to(target, vars, position)\<close> only, which adds one tween after
  those the timeline holds. A timeline is the list of the segments added so far, each
  with the three arguments of its call; a call with two arguments leaves the position
  \<^verbatim>\<open>undefined\<close>.
\<close>

record segment =
  seg_target :: string
  seg_vars :: "(string \<times> jsval) list"
  seg_position :: jsval

type_synonym timeline = "segment list"

definition timeline_to :: "string \<Rightarrow> (string \<times> jsval) list \<Rightarrow> jsval \<Rightarrow> timeline \<Rightarrow> timeline" where
  "timeline_to tgt vs pos timeline = timeline @ [\<lparr>seg_target = tgt, seg_vars = vs, seg_position = pos\<rparr>]"

text \<open>Every wrapper returns the value of the call (\<^verbatim>\<open>undefined\<close>: none has a
  \<^verbatim>\<open>return\<close>) and the timeline after it.\<close>

definition spinTheThings :: "timeline \<Rightarrow> jsval \<Rightarrow> jsval \<times> timeline" where
  "spinTheThings timeline duration =
    (JUndefined,
     timeline_to ''.spinnable''
       [(''duration'', duration),
        (''rotation'', JStr ''+=360''),
        (''transformOrigin'', JStr ''50% 50%''),
        (''ease'', JStr ''linear''),
        (''repeat'', JNum (- 1))]
       JUndefined timeline)"

definition openDoorLeft :: "timeline \<Rightarrow> string \<Rightarrow> jsval \<times> timeline" where
  "openDoorLeft timeline doorId =
    (JUndefined,
     timeline_to doorId
       [(''duration'', JNum (3/2)),
        (''x'', JStr ''0%''),
        (''scaleX'', JNum 0),
        (''transformOrigin'', JStr ''left center''),
        (''ease'', JStr ''power2.out'')]
       JUndefined timeline)"


definition moveAlong :: "timeline \<Rightarrow> string \<Rightarrow> string \<Rightarrow> jsval \<Rightarrow> jsval \<Rightarrow> jsval \<times> timeline" where
  "moveAlong timeline elementId pathId position_arg repeat_arg =
    (let position = dflt JNull position_arg;
         repeat = dflt (JNum 0) repeat_arg
     in (JUndefined,
         timeline_to elementId
           [(''duration'', JNum 1),
            (''ease'', JStr ''power1.inOut''),
            (''motionPath'',
               JObj [(''path'', JStr pathId),
                     (''align'', JStr pathId),
                     (''alignOrigin'', JArr [JNum (1/2), JNum (1/2)])]),
            (''repeat'', repeat)]
           position timeline))"

text \<open>\<^verbatim>\<open>secondsOffset = 0\<close>: the argument may be left out (\<open>None\<close>).\<close>

definition startWithPrevious :: "jsnumber option \<Rightarrow> string" where
  "startWithPrevious arg =
    (let secondsOffset = (case arg of None \<Rightarrow> num_of_int 0 | Some x \<Rightarrow> x)
     in if is_zero secondsOffset then ''<'' else ''<'' @ js_num_str secondsOffset)"

definition startAfterPrevious :: "jsnumber option \<Rightarrow> string" where
  "startAfterPrevious arg =
    (let secondsOffset = (case arg of None \<Rightarrow> num_of_int 0 | Some x \<Rightarrow> x)
     in if is_zero secondsOffset then ''+=0'' else ''+='' @ js_num_str secondsOffset)"

definition zoomTo :: "timeline \<Rightarrow> string \<Rightarrow> string \<Rightarrow> jsval \<times> timeline" where
  "zoomTo timeline ident viewBoxParams =
    (JUndefined,
     timeline_to ident
       [(''duration'', JNum 1),
        (''attr'', JObj [(''viewBox'', JStr viewBoxParams)]),
        (''ease'', JStr ''power3.inOut''),
        (''onComplete'', JFn (\<lambda>c. c @ [(Log, [LStr ''Zoom completed''])]))]
       JUndefined timeline)"

subsection \<open>How the engine places a relative token\<close>







section \<open>The document\<close>

text \<open>
  The document is a tree of nodes: elements with a tag, attributes and children, and
  character data. A node is referred to by its path, the list of child indices from the
  document down; the empty path is the document itself. The DOM operations the library
  calls are modelled after the DOM standard:
  \<^item> \<^verbatim>\<open>getElementById\<close> returns the first element, in tree order, whose \<^verbatim>\<open>id\<close>
    attribute is the given non-empty string, or \<^verbatim>\<open>null\<close> (\<open>None\<close>);
  \<^item> \<^verbatim>\<open>parentNode\<close> of a node of the document is the node one level up;
  \<^item> \<^verbatim>\<open>parent.appendChild(child)\<close>, for a child of that very parent, takes the
    child out of the child list and puts it back after the last child; the document
    node accepts no element while it has an element child and throws
    \<^verbatim>\<open>HierarchyRequestError\<close>;
  \<^item> assigning \<^verbatim>\<open>innerHTML\<close> replaces the children of the element by the nodes the
    parser makes of the markup. The parser is a parameter.
\<close>

datatype node = Element string "(string \<times> string) list" "node list" | Text string

type_synonym document = "node list"

type_synonym path = "nat list"

definition elem_id :: "(string \<times> string) list \<Rightarrow> string option" where
  "elem_id attrs =
    (case map_of attrs ''id'' of None \<Rightarrow> None | Some v \<Rightarrow> if v = [] then None else Some v)"

fun findFrom :: "string \<Rightarrow> nat \<Rightarrow> node list \<Rightarrow> path option" where
  "findFrom i k [] = None"
| "findFrom i k (Text s # ns) = findFrom i (Suc k) ns"
| "findFrom i k (Element t a cs # ns) =
     (if elem_id a = Some i then Some [k]
      else case findFrom i 0 cs of
             Some p \<Rightarrow> Some (k # p)
           | None \<Rightarrow> findFrom i (Suc k) ns)"

definition getElementById :: "document \<Rightarrow> string \<Rightarrow> path option" where
  "getElementById doc i = (if i = [] then None else findFrom i 0 doc)"

fun node_at :: "path \<Rightarrow> node list \<Rightarrow> node option" where
  "node_at [] ns = None"
| "node_at [k] ns = (if k < length ns then Some (ns ! k) else None)"
| "node_at (k # p) ns =
     (if k < length ns
      then (case ns ! k of Element t a cs \<Rightarrow> node_at p cs | Text s \<Rightarrow> None)
      else None)"

fun childNodes :: "path \<Rightarrow> node list \<Rightarrow> node list" where
  "childNodes [] ns = ns"
| "childNodes (k # p) ns =
     (if k < length ns
      then (case ns ! k of Element t a cs \<Rightarrow> childNodes p cs | Text s \<Rightarrow> [])
      else [])"

fun set_childNodes :: "path \<Rightarrow> (node list \<Rightarrow> node list) \<Rightarrow> node list \<Rightarrow> node list" where
  "set_childNodes [] f ns = f ns"
| "set_childNodes (k # p) f ns =
     (if k < length ns
      then (case ns ! k of
              Element t a cs \<Rightarrow> ns[k := Element t a (set_childNodes p f cs)]
            | Text s \<Rightarrow> ns)
      else ns)"

definition parentNode :: "path \<Rightarrow> path" where
  "parentNode el = butlast el"

definition childIndex :: "path \<Rightarrow> nat" where
  "childIndex el = last el"

definition move_last :: "nat \<Rightarrow> node list \<Rightarrow> node list" where
  "move_last k cs = (if k < length cs then take k cs @ drop (Suc k) cs @ [cs ! k] else cs)"

definition appendChild :: "path \<Rightarrow> nat \<Rightarrow> document \<Rightarrow> exn + document" where
  "appendChild parent k doc =
    (if parent = [] then Inl HierarchyRequestError
     else Inr (set_childNodes parent (move_last k) doc))"

definition set_innerHTML :: "(string \<Rightarrow> node list) \<Rightarrow> path \<Rightarrow> string \<Rightarrow> document \<Rightarrow> document" where
  "set_innerHTML parse el markup doc = set_childNodes el (\<lambda>old. parse markup) doc"

text \<open>
  \<^verbatim>\<open>bringToFront\<close> returns the outcome of the call (the exception thrown, or
  \<^verbatim>\<open>undefined\<close>) and the document after it. Reading \<^verbatim>\<open>parentNode\<close> of
  \<^verbatim>\<open>null\<close> throws a \<^verbatim>\<open>TypeError\<close>.
\<close>

definition bringToFront :: "string \<Rightarrow> document \<Rightarrow> (exn + jsval) \<times> document" where
  "bringToFront elementId doc =
    (case getElementById doc elementId of
       None \<Rightarrow> (Inl TypeError, doc)
     | Some element \<Rightarrow>
         (case appendChild (parentNode element) (childIndex element) doc of
            Inl e \<Rightarrow> (Inl e, doc)
          | Inr doc' \<Rightarrow> (Inr JUndefined, doc')))"

section \<open>Loading an SVG\<close>

text \<open>
  What \<^verbatim>\<open>loadSVG\<close> works on: the document, the calls of \<^verbatim>\<open>gsap.set\<close> made so far
  (selector and properties; the engine is taken to return normally) and the console.
  The network is a parameter: \<open>fetch url\<close> is what the promise of \<^verbatim>\<open>fetch(url)\<close>
  settles to, a rejection or a response, and the \<open>body\<close> of a response is what
  its \<^verbatim>\<open>text()\<close> promise settles to. A response carries its HTTP status.

  A promise is read at the moment it settles: from the world then, it gives the
  rejection (\<open>Inl\<close>) or the value (\<open>Inr\<close>) and the world its handlers leave.
  \<^verbatim>\<open>then\<close> runs its handler on a value and passes a rejection on; a handler that
  throws rejects the promise; \<^verbatim>\<open>catch\<close> runs its handler on a rejection.
\<close>

record response =
  status :: nat
  body :: "exn + string"

record world =
  document :: document
  gsap_sets :: "(string \<times> (string \<times> jsval) list) list"
  console :: console

type_synonym 'a promise = "world \<Rightarrow> (exn + 'a) \<times> world"

type_synonym callback = "jsval list \<Rightarrow> jsval promise"

definition settled :: "exn + 'a \<Rightarrow> 'a promise" where
  "settled r = (\<lambda>w. (r, w))"

definition then_p :: "'a promise \<Rightarrow> ('a \<Rightarrow> 'b promise) \<Rightarrow> 'b promise" where
  "then_p p handler =
    (\<lambda>w. case p w of (Inl e, w') \<Rightarrow> (Inl e, w') | (Inr v, w') \<Rightarrow> handler v w')"

definition catch_p :: "'a promise \<Rightarrow> (exn \<Rightarrow> 'a promise) \<Rightarrow> 'a promise" where
  "catch_p p handler =
    (\<lambda>w. case p w of (Inl e, w') \<Rightarrow> handler e w' | (Inr v, w') \<Rightarrow> (Inr v, w'))"

definition text_of :: "response \<Rightarrow> string promise" where
  "text_of r = settled (body r)"

definition gsap_set :: "string \<Rightarrow> (string \<times> jsval) list \<Rightarrow> world \<Rightarrow> world" where
  "gsap_set selector vs w = w\<lparr>gsap_sets := gsap_sets w @ [(selector, vs)]\<rparr>"

definition console_error :: "log_arg list \<Rightarrow> jsval promise" where
  "console_error args = (\<lambda>w. (Inr JUndefined, w\<lparr>console := console w @ [(Error, args)]\<rparr>))"

text \<open>The second \<^verbatim>\<open>then\<close> handler: assigning to \<^verbatim>\<open>innerHTML\<close> of \<^verbatim>\<open>null\<close>
  throws a \<^verbatim>\<open>TypeError\<close>; the callback, when there is one, is called with no
  argument and may throw.\<close>

definition loadSVG_insert ::
    "(string \<Rightarrow> node list) \<Rightarrow> string \<Rightarrow> jsval \<Rightarrow> jsval \<Rightarrow> callback option \<Rightarrow> string \<Rightarrow> jsval promise" where
  "loadSVG_insert parse target x y callback svg =
    (\<lambda>w. case getElementById (document w) target of
           None \<Rightarrow> (Inl TypeError, w)
         | Some container \<Rightarrow>
             (let w1 = w\<lparr>document := set_innerHTML parse container svg (document w)\<rparr>;
                  w2 = gsap_set (''#'' @ target @ '' svg'') [(''x'', x), (''y'', y)] w1
              in case callback of
                   None \<Rightarrow> (Inr JUndefined, w2)
                 | Some cb \<Rightarrow> then_p (cb []) (\<lambda>v. settled (Inr JUndefined)) w2))"

text \<open>The chain up to \<^verbatim>\<open>catch\<close>, and the whole of it.\<close>

definition loadSVG_chain ::
    "(string \<Rightarrow> exn + response) \<Rightarrow> (string \<Rightarrow> node list) \<Rightarrow>
     string \<Rightarrow> string \<Rightarrow> jsval \<Rightarrow> jsval \<Rightarrow> callback option \<Rightarrow> jsval promise" where
  "loadSVG_chain fetch parse url target x y callback =
    then_p (then_p (settled (fetch url)) (\<lambda>response. text_of response))
      (\<lambda>svg. loadSVG_insert parse target x y callback svg)"

definition loadSVG_settle ::
    "(string \<Rightarrow> exn + response) \<Rightarrow> (string \<Rightarrow> node list) \<Rightarrow>
     string \<Rightarrow> string \<Rightarrow> jsval \<Rightarrow> jsval \<Rightarrow> callback option \<Rightarrow> jsval promise" where
  "loadSVG_settle fetch parse url target x y callback =
    catch_p (loadSVG_chain fetch parse url target x y callback)
      (\<lambda>error. console_error [LStr ''Error loading SVG:'', LExn error])"

text \<open>The call itself starts the fetch and returns \<^verbatim>\<open>undefined\<close> at once (no
  \<^verbatim>\<open>return\<close>); the promise settles later.\<close>

definition loadSVG ::
    "(string \<Rightarrow> exn + response) \<Rightarrow> (string \<Rightarrow> node list) \<Rightarrow>
     string \<Rightarrow> string \<Rightarrow> jsval \<Rightarrow> jsval \<Rightarrow> callback option \<Rightarrow> jsval \<times> jsval promise" where
  "loadSVG fetch parse url target x y callback =
    (JUndefined, loadSVG_settle fetch parse url target x y callback)"

text \<open>The second copy of the library has \<^verbatim>\<open>loadSVG\<close> without the callback
  parameter; all else is the same.\<close>

definition loadSVG_part_000 ::
    "(string \<Rightarrow> exn + response) \<Rightarrow> (string \<Rightarrow> node list) \<Rightarrow>
     string \<Rightarrow> string \<Rightarrow> jsval \<Rightarrow> jsval \<Rightarrow> jsval \<times> jsval promise" where
  "loadSVG_part_000 fetch parse url target x y =
    (JUndefined,
     catch_p
       (then_p (then_p (settled (fetch url)) (\<lambda>response. text_of response))
          (\<lambda>svg w. case getElementById (document w) target of
                     None \<Rightarrow> (Inl TypeError, w)
                   | Some container \<Rightarrow>
                       (let w1 = w\<lparr>document := set_innerHTML parse container svg (document w)\<rparr>;
                            w2 = gsap_set (''#'' @ target @ '' svg'') [(''x'', x), (''y'', y)] w1
                        in (Inr JUndefined, w2))))
       (\<lambda>error. console_error [LStr ''Error loading SVG:'', LExn error]))"

section \<open>Sample documents\<close>

text \<open>A small scene; a document in which two elements carry the same \<^verbatim>\<open>id\<close>; and
  a document whose root element has an \<^verbatim>\<open>id\<close>.\<close>

definition doc_scene :: document where
  "doc_scene =
    [Element ''html'' []
      [Element ''body'' []
        [Element ''svg'' [(''id'', ''stage'')]
          [Element ''rect'' [(''id'', ''door1'')] [],
           Text ''  '',
           Element ''circle'' [(''id'', ''cart'')] [],
           Element ''path'' [(''id'', ''path1'')] []]]]]"

definition doc_twins :: document where
  "doc_twins =
    [Element ''html'' []
      [Element ''body'' []
        [Element ''rect'' [(''id'', ''a'')] [],
         Element ''circle'' [(''id'', ''a'')] []]]]"

definition doc_root_id :: document where
  "doc_root_id = [Element ''html'' [(''id'', ''page'')] [Element ''body'' [] []]]"

text \<open>A network that serves one drawing, answers 404 for another, breaks off the body
  of a third and is unreachable otherwise; a parser that knows one drawing; and the
  scene with nothing set and nothing logged.\<close>

definition net_example :: "string \<Rightarrow> exn + response" where
  "net_example url =
    (if url = ''door.svg'' then Inr \<lparr>status = 200, body = Inr ''<svg></svg>''\<rparr>
     else if url = ''gone.svg'' then Inr \<lparr>status = 404, body = Inr ''Not Found''\<rparr>
     else if url = ''cut.svg'' then Inr \<lparr>status = 200, body = Inl (Thrown ''aborted'')\<rparr>
     else Inl (Thrown ''Failed to fetch''))"

definition parse_example :: "string \<Rightarrow> node list" where
  "parse_example markup =
    (if markup = ''<svg></svg>'' then [Element ''svg'' [] []] else [Text markup])"

definition world_example :: world where
  "world_example = \<lparr>document = doc_scene, gsap_sets = [], console = []\<rparr>"


definition callback_example :: callback where
  "callback_example args =
    (\<lambda>w. (Inr JUndefined,
          w\<lparr>console := console w @ [(Log, LStr ''loaded'' # map (\<lambda>a. LStr ''argument'') args)]\<rparr>))"

section \<open>Printed numbers\<close>

lemma digits_nonempty: "digits n \<noteq> []"
  by (subst digits.simps) simp

lemma digit_char_zero: "n < 10 \<Longrightarrow> digit_char n = CHR ''0'' \<longleftrightarrow> n = 0"
proof -
  assume "n < 10"
  then consider "n = 0" | "n = 1" | "n = 2" | "n = 3" | "n = 4"
    | "n = 5" | "n = 6" | "n = 7" | "n = 8" | "n = 9"
    by atomize_elim arith
  then show ?thesis
    by cases (simp_all add: digit_char_def)
qed

lemma digits_zero: "digits n = ''0'' \<longleftrightarrow> n = 0"
proof (cases "n < 10")
  case True
  then show ?thesis
    by (subst digits.simps) (simp add: digit_char_zero)
next
  case False
  then have "digits n = digits (n div 10) @ [digit_char (n mod 10)]"
    by (subst digits.simps) simp
  moreover have "digits (n div 10) \<noteq> []"
    by (rule digits_nonempty)
  ultimately have "digits n \<noteq> ''0''"
    by (cases "digits (n div 10)") auto
  with False show ?thesis by auto
qed

lemma digits_times_10: "0 < s \<Longrightarrow> digits (10 * s) = digits s @ ''0''"
  by (subst digits.simps) (simp add: digit_char_def)

lemma digits_length: "n < 10 ^ j \<Longrightarrow> 0 < j \<Longrightarrow> length (digits n) \<le> j"
proof (induction j arbitrary: n)
  case 0
  then show ?case by simp
next
  case (Suc j)
  show ?case
  proof (cases "n < 10")
    case True
    then show ?thesis by (subst digits.simps) simp
  next
    case False
    with Suc.prems have "n div 10 < 10 ^ j" by (simp add: less_mult_imp_div_less mult.commute)
    moreover from False Suc.prems have "0 < j" by (cases j) auto
    ultimately have "length (digits (n div 10)) \<le> j" by (rule Suc.IH)
    with False show ?thesis by (subst digits.simps) simp
  qed
qed

lemma strip10_zero: "strip10 s = 0 \<longleftrightarrow> s = 0"
proof (induction s rule: strip10.induct)
  case (1 s)
  show ?case
  proof (cases "0 < s \<and> s mod 10 = 0")
    case True
    with 1 have "strip10 (s div 10) = 0 \<longleftrightarrow> s div 10 = 0" by simp
    moreover from True have "s div 10 \<noteq> 0" by auto
    ultimately show ?thesis using True by (subst strip10.simps) simp
  next
    case False
    then show ?thesis by (subst strip10.simps) auto
  qed
qed

lemma digits_strip10_value:
  "0 < s \<Longrightarrow> \<exists>m. digits s = digits (strip10 s) @ replicate m CHR ''0'' \<and> s = strip10 s * 10 ^ m"
proof (induction s rule: strip10.induct)
  case (1 s)
  show ?case
  proof (cases "s mod 10 = 0")
    case True
    with "1.prems" have pos: "0 < s div 10" by auto
    from True have s: "s = 10 * (s div 10)" by auto
    from "1.IH" "1.prems" True pos obtain m
      where m: "digits (s div 10) = digits (strip10 (s div 10)) @ replicate m CHR ''0''"
        "s div 10 = strip10 (s div 10) * 10 ^ m"
      by auto
    have d: "digits s = digits (s div 10) @ ''0''"
      using digits_times_10 [OF pos] s by simp
    have st: "strip10 s = strip10 (s div 10)"
      using True "1.prems" by (subst strip10.simps) simp
    have "digits s = digits (strip10 s) @ replicate (Suc m) CHR ''0''"
      using m(1) d st by (simp add: replicate_append_same)
    moreover have "s = strip10 s * 10 ^ Suc m"
      using m(2) s st by simp
    ultimately show ?thesis by blast
  next
    case False
    then have "strip10 s = s" by (subst strip10.simps) simp
    then have "digits s = digits (strip10 s) @ replicate 0 CHR ''0'' \<and> s = strip10 s * 10 ^ 0"
      by simp
    then show ?thesis by blast
  qed
qed

lemma layout_nonzero:
  assumes "s \<noteq> 0"
  shows "layout s n \<noteq> [] \<and> layout s n \<noteq> ''0''"
proof -
  define ds where "ds = digits (strip10 s)"
  from assms have "strip10 s \<noteq> 0" by (simp add: strip10_zero)
  then have ds: "ds \<noteq> []" "ds \<noteq> ''0''"
    by (simp_all add: ds_def digits_nonempty digits_zero)
  then obtain c cs where c: "ds = c # cs" by (cases ds) auto
  have a: "ds @ replicate m CHR ''0'' \<noteq> ''0''" for m
    using ds c by (cases m) auto
  have d: "take 1 ds @ ''.'' @ r \<noteq> ''0''" "take 1 ds @ ''.'' @ r \<noteq> []" for r
    using c by auto
  have b: "take (nat n) ds @ ''.'' @ r \<noteq> ''0''" for r
    by (cases "take (nat n) ds") auto
  show ?thesis
    unfolding layout_def Let_def ds_def [symmetric]
    using ds a b d by (auto simp: c)
qed

lemma js_num_str_nonempty: "js_num_str x \<noteq> []"
  by (cases x) (auto simp: js_num_str_def layout_nonzero)

lemma js_num_str_zero: "js_num_str x = ''0'' \<longleftrightarrow> is_zero x"
  by (cases x) (auto simp: js_num_str_def is_zero_def layout_nonzero)

lemma max_safe_digits: "int s \<le> max_safe \<Longrightarrow> length (digits s) \<le> 16"
proof -
  assume "int s \<le> max_safe"
  then have "s < 10 ^ 16" by (simp add: max_safe_def)
  then show ?thesis by (rule digits_length) simp
qed


lemma js_num_str_num_of_int:
  assumes "\<bar>v\<bar> \<le> max_safe"
  shows "js_num_str (num_of_int v) = int_str v"
proof (cases "v = 0")
  case True
  have "digits 0 = ''0''" by (simp add: digits_zero)
  with True show ?thesis by (simp add: js_num_str_def num_of_int_def int_str_def)
next
  case False
  define s where "s = nat \<bar>v\<bar>"
  from False have pos: "0 < s" by (simp add: s_def)
  from assms have "int s \<le> max_safe" by (simp add: s_def)
  then have short: "length (digits s) \<le> 16" by (rule max_safe_digits)
  from digits_strip10_value [OF pos] obtain m
    where m: "digits s = digits (strip10 s) @ replicate m CHR ''0''"
    by blast
  then have len: "length (digits s) = length (digits (strip10 s)) + m"
    by (metis length_append length_replicate)
  have "layout s (int (length (digits s))) = digits s"
    using short len m by (simp add: layout_def Let_def)
  with False pos show ?thesis
    by (simp add: js_num_str_def num_of_int_def int_str_def s_def [symmetric])
qed


lemma js_num_str_small:
  "js_num_str (num_of_int 0) = ''0''" "js_num_str (num_of_int 1) = ''1''"
  "js_num_str (num_of_int 2) = ''2''"
  by (simp_all add: js_num_str_num_of_int max_safe_def int_str_def digits.simps digit_char_def)

lemma js_num_str_examples:
  "js_num_str (JFinite False 5 0) = ''0.5''"
  "js_num_str (JFinite False 1 22) = ''1e+21''"
  "js_num_str (JFinite True 15 1) = ''-1.5''"
  "js_num_str JNaN = ''NaN''"
  by (simp_all add: js_num_str_def layout_def strip10.simps digits.simps digit_char_def)

section \<open>Reading a token back\<close>






section \<open>Position encoders\<close>

text \<open>
  C4. \<^verbatim>\<open>startWithPrevious(0)\<close> is the bare token \<^verbatim>\<open><\<close> and
  \<^verbatim>\<open>startAfterPrevious(0)\<close> is \<^verbatim>\<open>+=0\<close>, as when the argument is left out, and for
  the negative zero. Every other number (a fraction, a large one, \<^verbatim>\<open>NaN\<close>,
  \<^verbatim>\<open>Infinity\<close>) is printed behind \<^verbatim>\<open><\<close> or \<^verbatim>\<open>+=\<close>, and the token is never the
  zero-offset token of the same encoder. At offset 2 the tokens are \<^verbatim>\<open><2\<close> and
  \<^verbatim>\<open>+=2\<close>; a token of one encoder is never a token of the other.
\<close>

theorem position_tokens:
  "startWithPrevious (Some (num_of_int 0)) = ''<''
   \<and> startAfterPrevious (Some (num_of_int 0)) = ''+=0''
   \<and> startWithPrevious None = ''<'' \<and> startAfterPrevious None = ''+=0''
   \<and> (\<forall>x. is_zero x \<longrightarrow>
          startWithPrevious (Some x) = ''<'' \<and> startAfterPrevious (Some x) = ''+=0'')
   \<and> (\<forall>x. \<not> is_zero x \<longrightarrow>
          startWithPrevious (Some x) = ''<'' @ js_num_str x
        \<and> startAfterPrevious (Some x) = ''+='' @ js_num_str x
        \<and> startWithPrevious (Some x) \<noteq> startWithPrevious (Some (num_of_int 0))
        \<and> startAfterPrevious (Some x) \<noteq> startAfterPrevious (Some (num_of_int 0)))
   \<and> startWithPrevious (Some (num_of_int 2)) = ''<2''
   \<and> startAfterPrevious (Some (num_of_int 2)) = ''+=2''
   \<and> startWithPrevious (Some (num_of_int 2)) \<noteq> startAfterPrevious (Some (num_of_int 2))
   \<and> (\<forall>a b. startWithPrevious a \<noteq> startAfterPrevious b)"
proof -
  have zero: "is_zero (num_of_int 0)" and two: "\<not> is_zero (num_of_int 2)"
    by (simp_all add: is_zero_def num_of_int_def)
  have other: "startWithPrevious (Some x) = ''<'' @ js_num_str x
        \<and> startAfterPrevious (Some x) = ''+='' @ js_num_str x
        \<and> startWithPrevious (Some x) \<noteq> startWithPrevious (Some (num_of_int 0))
        \<and> startAfterPrevious (Some x) \<noteq> startAfterPrevious (Some (num_of_int 0))"
    if "\<not> is_zero x" for x
    using that zero
    by (simp add: startWithPrevious_def startAfterPrevious_def js_num_str_nonempty js_num_str_zero)
  have apart: "startWithPrevious a \<noteq> startAfterPrevious b" for a b
    by (simp add: startWithPrevious_def startAfterPrevious_def Let_def)
  from zero two other apart show ?thesis
    by (simp add: startWithPrevious_def startAfterPrevious_def js_num_str_small)
qed

theorem position_tokens_witness:
  "\<not> is_zero (JFinite False 5 0)
   \<and> startWithPrevious (Some (JFinite False 5 0)) = ''<0.5''
   \<and> startAfterPrevious (Some (JFinite False 5 0)) = ''+=0.5''
   \<and> startWithPrevious (Some (JFinite False 1 22)) = ''<1e+21''
   \<and> startAfterPrevious (Some (JFinite False 1 22)) = ''+=1e+21''
   \<and> startWithPrevious (Some JNaN) = ''<NaN''
   \<and> is_zero (JFinite True 0 1)
   \<and> startAfterPrevious (Some (JFinite True 0 1)) = ''+=0''"
proof -
  have nonzero: "\<not> is_zero (JFinite False 5 0)" "\<not> is_zero (JFinite False 1 22)"
      "\<not> is_zero JNaN"
    and zero: "is_zero (JFinite True 0 1)"
    by (simp_all add: is_zero_def)
  from position_tokens
  have "\<forall>x. \<not> is_zero x \<longrightarrow>
          startWithPrevious (Some x) = ''<'' @ js_num_str x
        \<and> startAfterPrevious (Some x) = ''+='' @ js_num_str x
        \<and> startWithPrevious (Some x) \<noteq> startWithPrevious (Some (num_of_int 0))
        \<and> startAfterPrevious (Some x) \<noteq> startAfterPrevious (Some (num_of_int 0))"
    and "\<forall>x. is_zero x \<longrightarrow>
          startWithPrevious (Some x) = ''<'' \<and> startAfterPrevious (Some x) = ''+=0''"
    by blast+
  with nonzero zero js_num_str_examples show ?thesis
    by simp
qed

section \<open>Timeline helpers\<close>












text \<open>
  C6. \<^verbatim>\<open>openDoorLeft\<close>, \<^verbatim>\<open>spinTheThings\<close>, \<^verbatim>\<open>moveAlong\<close> and \<^verbatim>\<open>zoomTo\<close>, called
  on any timeline with any arguments, each return \<^verbatim>\<open>undefined\<close> and leave the
  timeline as it was, followed by exactly one new segment.
\<close>

theorem helpers_append_one_segment:
  "(\<exists>seg. openDoorLeft timeline doorId = (JUndefined, timeline @ [seg]))
   \<and> (\<exists>seg. spinTheThings timeline duration = (JUndefined, timeline @ [seg]))
   \<and> (\<exists>seg. moveAlong timeline elementId pathId pos rep = (JUndefined, timeline @ [seg]))
   \<and> (\<exists>seg. zoomTo timeline ident viewBoxParams = (JUndefined, timeline @ [seg]))"
  by (simp add: openDoorLeft_def spinTheThings_def moveAlong_def zoomTo_def timeline_to_def)

text \<open>
  C7. From the empty timeline, \<^verbatim>\<open>openDoorLeft(tl, "#door1")\<close> and then
  \<^verbatim>\<open>moveAlong(tl, "#cart", "#path1", startWithPrevious())\<close> leave two segments, the
  door's and then the cart's; the second carries the token \<^verbatim>\<open><\<close>, the zero-offset
  token of \<^verbatim>\<open>startWithPrevious\<close>, and the first is the one the first call added.
\<close>

theorem door_then_cart_scenario:
  "(let t1 = snd (openDoorLeft [] ''#door1'');
        t2 = snd (moveAlong t1 ''#cart'' ''#path1'' (JStr (startWithPrevious None)) JUndefined)
    in length t2 = 2
       \<and> map seg_target t2 = [''#door1'', ''#cart'']
       \<and> seg_position (t2 ! 1) = JStr ''<''
       \<and> seg_position (t2 ! 1) = JStr (startWithPrevious (Some (num_of_int 0)))
       \<and> t2 ! 0 = t1 ! 0)"
  by (simp add: openDoorLeft_def moveAlong_def startWithPrevious_def timeline_to_def dflt_def
      is_zero_def num_of_int_def)

text \<open>
  C8. \<^verbatim>\<open>spinTheThings(timeline, duration)\<close> adds one segment whose target is the
  selector \<^verbatim>\<open>.spinnable\<close> and whose properties are the duration passed in, a rotation
  of \<^verbatim>\<open>+=360\<close>, \<^verbatim>\<open>repeat: -1\<close> (repeat without end), the easing \<^verbatim>\<open>linear\<close> and the
  transform origin \<^verbatim>\<open>50% 50%\<close>, the entry \<^verbatim>\<open>center\<close> of \<open>TransformOrigin\<close>.
\<close>

theorem spinTheThings_segment:
  "\<exists>seg. spinTheThings timeline duration = (JUndefined, timeline @ [seg])
     \<and> seg_target seg = ''.spinnable''
     \<and> map fst (seg_vars seg) = [''duration'', ''rotation'', ''transformOrigin'', ''ease'', ''repeat'']
     \<and> map_of (seg_vars seg) ''duration'' = Some duration
     \<and> map_of (seg_vars seg) ''rotation'' = Some (JStr ''+=360'')
     \<and> map_of (seg_vars seg) ''repeat'' = Some (JNum (- 1))
     \<and> map_of (seg_vars seg) ''ease'' = Some (JStr ''linear'')
     \<and> map_of (seg_vars seg) ''transformOrigin'' = map_option JStr (map_of TransformOrigin ''center'')
     \<and> seg_position seg = JUndefined"
  by (simp add: spinTheThings_def timeline_to_def TransformOrigin_def)

section \<open>Finding an element\<close>

lemma findFrom_nonempty: "findFrom i k ns \<noteq> Some []"
  by (induction i k ns rule: findFrom.induct) (auto split: option.splits)

lemma findFrom_None_offset: "findFrom i k ns = None \<Longrightarrow> findFrom i k' ns = None"
proof (induction i k ns arbitrary: k' rule: findFrom.induct)
  case (1 i k)
  show ?case by simp
next
  case (2 i k s ns)
  from "2.prems" have "findFrom i (Suc k) ns = None" by simp
  from "2.IH" [OF this] show ?case by simp
next
  case (3 i k t a cs ns)
  from "3.prems" have a: "elem_id a \<noteq> Some i"
    by (simp split: if_splits)
  with "3.prems" have b: "findFrom i 0 cs = None"
    by (simp split: option.splits)
  with a "3.prems" have c: "findFrom i (Suc k) ns = None"
    by simp
  from "3.IH"(2) [OF a b c] show ?case using a b by simp
qed

lemma findFrom_append:
  "findFrom i k (xs @ ys) =
     (case findFrom i k xs of Some p \<Rightarrow> Some p | None \<Rightarrow> findFrom i (k + length xs) ys)"
  by (induction i k xs rule: findFrom.induct) (auto split: option.splits)

lemma findFrom_at:
  assumes "j < length ns" and "findFrom i k (take j ns) = None" and "ns ! j = Element t a cs"
  shows "findFrom i k ns =
     (if elem_id a = Some i then Some [k + j]
      else case findFrom i 0 cs of
             Some r \<Rightarrow> Some ((k + j) # r)
           | None \<Rightarrow> findFrom i (Suc (k + j)) (drop (Suc j) ns))"
proof -
  have "ns = take j ns @ ns ! j # drop (Suc j) ns"
    by (rule id_take_nth_drop [OF assms(1)])
  then have "findFrom i k ns = findFrom i k (take j ns @ Element t a cs # drop (Suc j) ns)"
    using assms(3) by simp
  also have "\<dots> = findFrom i (k + j) (Element t a cs # drop (Suc j) ns)"
    using assms(1,2) by (simp add: findFrom_append)
  finally show ?thesis by simp
qed


lemma findFrom_Some:
  "findFrom i k ns = Some p \<Longrightarrow>
   \<exists>j r t a cs. p = (k + j) # r \<and> j < length ns \<and> findFrom i k (take j ns) = None
       \<and> ns ! j = Element t a cs
       \<and> (if r = [] then elem_id a = Some i
           else elem_id a \<noteq> Some i \<and> findFrom i 0 cs = Some r)"
proof (induction i k ns arbitrary: p rule: findFrom.induct)
  case (1 i k)
  then show ?case by simp
next
  case (2 i k s ns)
  from "2.prems" have "findFrom i (Suc k) ns = Some p" by simp
  from "2.IH" [OF this] obtain j r t a cs where *: "p = (Suc k + j) # r" "j < length ns"
      "findFrom i (Suc k) (take j ns) = None" "ns ! j = Element t a cs"
      "if r = [] then elem_id a = Some i else elem_id a \<noteq> Some i \<and> findFrom i 0 cs = Some r"
    by blast
  have "p = (k + Suc j) # r \<and> Suc j < length (Text s # ns)
      \<and> findFrom i k (take (Suc j) (Text s # ns)) = None
      \<and> (Text s # ns) ! Suc j = Element t a cs
      \<and> (if r = [] then elem_id a = Some i else elem_id a \<noteq> Some i \<and> findFrom i 0 cs = Some r)"
    using * by simp
  then show ?case by blast
next
  case (3 i k t a cs ns)
  show ?case
  proof (cases "elem_id a = Some i")
    case True
    with "3.prems" have "p = (k + 0) # [] \<and> 0 < length (Element t a cs # ns)
      \<and> findFrom i k (take 0 (Element t a cs # ns)) = None
      \<and> (Element t a cs # ns) ! 0 = Element t a cs
      \<and> (if [] = ([]::path) then elem_id a = Some i else elem_id a \<noteq> Some i \<and> findFrom i 0 cs = Some [])"
      by simp
    then show ?thesis by blast
  next
    case not_here: False
    show ?thesis
    proof (cases "findFrom i 0 cs")
      case (Some q)
      with not_here "3.prems" have "p = k # q" by simp
      moreover have "q \<noteq> []" using Some findFrom_nonempty by metis
      ultimately have "p = (k + 0) # q \<and> 0 < length (Element t a cs # ns)
        \<and> findFrom i k (take 0 (Element t a cs # ns)) = None
        \<and> (Element t a cs # ns) ! 0 = Element t a cs
        \<and> (if q = [] then elem_id a = Some i else elem_id a \<noteq> Some i \<and> findFrom i 0 cs = Some q)"
        using not_here Some by simp
      then show ?thesis by blast
    next
      case None
      with not_here "3.prems" have "findFrom i (Suc k) ns = Some p" by simp
      from "3.IH"(2) [OF not_here None this]
      obtain j r t' a' cs' where *: "p = (Suc k + j) # r" "j < length ns"
          "findFrom i (Suc k) (take j ns) = None" "ns ! j = Element t' a' cs'"
          "if r = [] then elem_id a' = Some i else elem_id a' \<noteq> Some i \<and> findFrom i 0 cs' = Some r"
        by blast
      have "p = (k + Suc j) # r \<and> Suc j < length (Element t a cs # ns)
        \<and> findFrom i k (take (Suc j) (Element t a cs # ns)) = None
        \<and> (Element t a cs # ns) ! Suc j = Element t' a' cs'
        \<and> (if r = [] then elem_id a' = Some i else elem_id a' \<noteq> Some i \<and> findFrom i 0 cs' = Some r)"
        using * not_here None by simp
      then show ?thesis by blast
    qed
  qed
qed

section \<open>Paths and child lists\<close>

lemma node_at_Cons:
  "p \<noteq> [] \<Longrightarrow> node_at (j # p) ns =
     (if j < length ns
      then (case ns ! j of Element t a cs \<Rightarrow> node_at p cs | Text s \<Rightarrow> None)
      else None)"
  by (cases p) (auto split: node.splits)

lemma node_at_snoc:
  "node_at (pp @ [k]) ns =
     (if k < length (childNodes pp ns) then Some (childNodes pp ns ! k) else None)"
proof (induction pp arbitrary: ns)
  case Nil
  show ?case by simp
next
  case (Cons j pp)
  show ?case
    by (simp add: node_at_Cons Cons.IH split: node.splits)
qed

lemma found_element:
  "findFrom i 0 ns = Some p \<Longrightarrow> \<exists>t a cs. node_at p ns = Some (Element t a cs) \<and> elem_id a = Some i"
proof (induction p arbitrary: ns)
  case Nil
  then show ?case by (simp add: findFrom_nonempty)
next
  case (Cons j r)
  from findFrom_Some [OF Cons.prems]
  obtain t a cs where *: "j < length ns" "ns ! j = Element t a cs"
      "if r = [] then elem_id a = Some i else elem_id a \<noteq> Some i \<and> findFrom i 0 cs = Some r"
    by auto
  show ?case
  proof (cases "r = []")
    case True
    with * show ?thesis by simp
  next
    case False
    with * have "findFrom i 0 cs = Some r" by simp
    from Cons.IH [OF this] show ?thesis
      using * False by (simp add: node_at_Cons)
  qed
qed

lemma childNodes_set:
  "f [] = [] \<Longrightarrow> childNodes p (set_childNodes p f ns) = f (childNodes p ns)"
  by (induction p arbitrary: ns) (auto split: node.splits)

lemma childNodes_set_element:
  "node_at p ns = Some (Element t a cs) \<Longrightarrow>
   childNodes p ns = cs \<and> childNodes p (set_childNodes p f ns) = f cs"
  by (induction p ns rule: node_at.induct) (auto split: node.splits if_splits)

lemma set_childNodes_id:
  "f (childNodes p ns) = childNodes p ns \<Longrightarrow> set_childNodes p f ns = ns"
proof (induction p arbitrary: ns)
  case Nil
  then show ?case by simp
next
  case (Cons k p)
  show ?case
  proof (cases "k < length ns")
    case False
    then show ?thesis by simp
  next
    case True
    show ?thesis
    proof (cases "ns ! k")
      case (Text s)
      with True show ?thesis by simp
    next
      case (Element t a cs)
      with True Cons.prems have "f (childNodes p cs) = childNodes p cs" by simp
      from Cons.IH [OF this] have "set_childNodes p f cs = cs" .
      with True Element have "set_childNodes (k # p) f ns = ns[k := ns ! k]" by simp
      then show ?thesis by simp
    qed
  qed
qed

lemma move_last_Nil: "move_last k [] = []"
  by (simp add: move_last_def)

lemma length_move_last: "length (move_last k cs) = length cs"
  by (auto simp: move_last_def)

lemma move_last_last: "move_last (length cs - 1) cs = cs"
  by (cases cs rule: rev_cases) (simp_all add: move_last_def nth_append)

lemma move_last_nth: "k < length cs \<Longrightarrow> move_last k cs ! (length cs - 1) = cs ! k"
  by (auto simp: move_last_def nth_append)

lemma moved_found:
  assumes "findFrom i 0 ns = Some (pp @ [c])"
      and "findFrom i 0 (drop (Suc c) (childNodes pp ns)) = None"
  shows "findFrom i 0 (set_childNodes pp (move_last c) ns) = Some (pp @ [length (childNodes pp ns) - 1])"
  using assms
proof (induction pp arbitrary: ns)
  case Nil
  from findFrom_Some [of i 0 ns "[c]"] Nil.prems(1)
  obtain t a cs where *: "c < length ns" "findFrom i 0 (take c ns) = None"
      "ns ! c = Element t a cs" "elem_id a = Some i"
    by auto
  from Nil.prems(2) have "findFrom i c (drop (Suc c) ns) = None"
    by (simp add: findFrom_None_offset)
  with * show ?case
    by (simp add: move_last_def findFrom_append)
next
  case (Cons j pp)
  from findFrom_Some [of i 0 ns "j # pp @ [c]"] Cons.prems(1)
  obtain t a cs where *: "j < length ns" "findFrom i 0 (take j ns) = None"
      "ns ! j = Element t a cs" "elem_id a \<noteq> Some i" "findFrom i 0 cs = Some (pp @ [c])"
    by auto
  from Cons.prems(2) * have "findFrom i 0 (drop (Suc c) (childNodes pp cs)) = None"
    by simp
  from Cons.IH [OF *(5) this]
  have ih: "findFrom i 0 (set_childNodes pp (move_last c) cs) = Some (pp @ [length (childNodes pp cs) - 1])" .
  let ?cs' = "set_childNodes pp (move_last c) cs"
  let ?ns' = "ns[j := Element t a ?cs']"
  have "findFrom i 0 ?ns' = Some (j # pp @ [length (childNodes pp cs) - 1])"
    using findFrom_at [of j ?ns' i 0 t a ?cs'] * ih by simp
  with * show ?case by simp
qed

section \<open>Bringing an element to the front\<close>

text \<open>
  C5 (as amended). Let \<^verbatim>\<open>id\<close> resolve to an element whose parent is an element (not
  the document), and let no element with the same \<^verbatim>\<open>id\<close> stand among or inside the
  siblings that follow it. Then \<^verbatim>\<open>bringToFront(id)\<close> returns normally, the children of
  the parent are the former ones with the element moved behind the last, \<^verbatim>\<open>id\<close> still
  resolves to the same element, now the last child of the same parent, and a second call
  returns normally and leaves the document as the first call left it.
\<close>

theorem bringToFront_last_child_idempotent:
  assumes "getElementById doc i = Some el"
    and "parentNode el \<noteq> []"
    and "findFrom i 0 (drop (Suc (childIndex el)) (childNodes (parentNode el) doc)) = None"
  shows "\<exists>doc1 el1.
      bringToFront i doc = (Inr JUndefined, doc1)
    \<and> getElementById doc1 i = Some el1
    \<and> node_at el1 doc1 = node_at el doc
    \<and> parentNode el1 = parentNode el
    \<and> Suc (childIndex el1) = length (childNodes (parentNode el1) doc1)
    \<and> childNodes (parentNode el) doc1 = move_last (childIndex el) (childNodes (parentNode el) doc)
    \<and> bringToFront i doc1 = (Inr JUndefined, doc1)"
proof -
  define pp where "pp = parentNode el"
  define c where "c = childIndex el"
  define cs where "cs = childNodes pp doc"
  define doc1 where "doc1 = set_childNodes pp (move_last c) doc"
  define el1 where "el1 = pp @ [length cs - 1]"
  from assms(1) have i: "i \<noteq> []" and found: "findFrom i 0 doc = Some el"
    by (simp_all add: getElementById_def split: if_splits)
  from found have "el \<noteq> []"
    using findFrom_nonempty by metis
  then have el: "el = pp @ [c]"
    by (simp add: pp_def c_def parentNode_def childIndex_def)
  from found_element [OF found] obtain t a es where "node_at el doc = Some (Element t a es)"
    by blast
  then have c: "c < length cs" and at: "node_at el doc = Some (cs ! c)"
    by (simp_all add: el node_at_snoc cs_def split: if_splits)
  have cs1: "childNodes pp doc1 = move_last c cs"
    by (simp add: doc1_def cs_def childNodes_set move_last_Nil)
  have len1: "length (childNodes pp doc1) = length cs"
    by (simp add: cs1 length_move_last)
  have first: "bringToFront i doc = (Inr JUndefined, doc1)"
    using assms(1,2) by (simp add: bringToFront_def appendChild_def doc1_def pp_def c_def)
  have "findFrom i 0 doc = Some (pp @ [c])"
    using found el by simp
  moreover have "findFrom i 0 (drop (Suc c) (childNodes pp doc)) = None"
    using assms(3) by (simp add: pp_def c_def)
  ultimately have "findFrom i 0 doc1 = Some el1"
    unfolding doc1_def el1_def cs_def by (rule moved_found)
  with i have get1: "getElementById doc1 i = Some el1"
    by (simp add: getElementById_def)
  have same: "node_at el1 doc1 = node_at el doc"
    using c move_last_nth [of c cs]
    by (auto simp: el1_def node_at_snoc cs1 length_move_last at)
  have parent1: "parentNode el1 = pp" and index1: "childIndex el1 = length cs - 1"
    by (simp_all add: el1_def parentNode_def childIndex_def)
  have "set_childNodes pp (move_last (length cs - 1)) doc1 = doc1"
    by (rule set_childNodes_id) (metis len1 move_last_last)
  with get1 assms(2) have second: "bringToFront i doc1 = (Inr JUndefined, doc1)"
    by (simp add: bringToFront_def appendChild_def parent1 index1 pp_def)
  have "Suc (childIndex el1) = length (childNodes (parentNode el1) doc1)"
    using c by (simp add: parent1 index1 len1)
  with first get1 same parent1 cs1 second show ?thesis
    unfolding pp_def [symmetric] c_def [symmetric] cs_def [symmetric]
    by (intro exI [of _ doc1] exI [of _ el1]) (simp add: pp_def)
qed

theorem bringToFront_last_child_idempotent_witness:
  "getElementById doc_scene ''door1'' = Some [0, 0, 0, 0]
   \<and> bringToFront ''door1'' doc_scene =
       (Inr JUndefined,
        [Element ''html'' []
          [Element ''body'' []
            [Element ''svg'' [(''id'', ''stage'')]
              [Text ''  '',
               Element ''circle'' [(''id'', ''cart'')] [],
               Element ''path'' [(''id'', ''path1'')] [],
               Element ''rect'' [(''id'', ''door1'')] []]]]])
   \<and> bringToFront ''door1'' (snd (bringToFront ''door1'' doc_scene)) = bringToFront ''door1'' doc_scene"
  using bringToFront_last_child_idempotent [of doc_scene "''door1''" "[0, 0, 0, 0]"]
  by (simp add: doc_scene_def getElementById_def bringToFront_def appendChild_def parentNode_def
      childIndex_def move_last_def elem_id_def)

text \<open>
  The two restrictions are needed. With two siblings of the same \<^verbatim>\<open>id\<close>, the first
  call moves the first of them behind the second, the second call finds the other one
  and moves it in turn: the order changes again. And the root element has the document
  as its parent, which refuses the append: the call throws and nothing moves.
\<close>

theorem bringToFront_counterexample:
  "getElementById doc_twins ''a'' = Some [0, 0, 0]
   \<and> bringToFront ''a'' doc_twins =
       (Inr JUndefined,
        [Element ''html'' []
          [Element ''body'' []
            [Element ''circle'' [(''id'', ''a'')] [],
             Element ''rect'' [(''id'', ''a'')] []]]])
   \<and> bringToFront ''a'' (snd (bringToFront ''a'' doc_twins)) = (Inr JUndefined, doc_twins)
   \<and> snd (bringToFront ''a'' (snd (bringToFront ''a'' doc_twins))) \<noteq> snd (bringToFront ''a'' doc_twins)
   \<and> getElementById doc_root_id ''page'' = Some [0]
   \<and> bringToFront ''page'' doc_root_id = (Inl HierarchyRequestError, doc_root_id)"
  by (simp add: doc_twins_def doc_root_id_def getElementById_def bringToFront_def appendChild_def
      parentNode_def childIndex_def move_last_def elem_id_def)

text \<open>
  C10. When \<^verbatim>\<open>id\<close> resolves to no element, \<^verbatim>\<open>bringToFront(id)\<close> throws a
  \<^verbatim>\<open>TypeError\<close> (reading \<^verbatim>\<open>parentNode\<close> of \<^verbatim>\<open>null\<close>) and the document is as it
  was.
\<close>

theorem bringToFront_missing_throws:
  "getElementById doc i = None \<Longrightarrow> bringToFront i doc = (Inl TypeError, doc)"
  by (simp add: bringToFront_def)

theorem bringToFront_missing_throws_witness:
  "getElementById doc_scene ''ghost'' = None
   \<and> bringToFront ''ghost'' doc_scene = (Inl TypeError, doc_scene)"
  using bringToFront_missing_throws [of doc_scene "''ghost''"]
  by (simp add: doc_scene_def getElementById_def elem_id_def)

section \<open>Loading an SVG: what the promise does\<close>

lemma loadSVG_chain_response:
  "fetch url = Inr r \<Longrightarrow> body r = Inr svg \<Longrightarrow>
   loadSVG_chain fetch parse url target x y callback w = loadSVG_insert parse target x y callback svg w"
  by (simp add: loadSVG_chain_def then_p_def settled_def text_of_def)

lemma loadSVG_chain_rejected:
  "fetch url = Inl e \<or> (\<exists>r. fetch url = Inr r \<and> body r = Inl e) \<Longrightarrow>
   loadSVG_chain fetch parse url target x y callback w = (Inl e, w)"
  by (auto simp: loadSVG_chain_def then_p_def settled_def text_of_def)

lemma innerHTML_children:
  assumes "getElementById doc target = Some container"
  shows "childNodes container (set_innerHTML parse container svg doc) = parse svg"
proof -
  from assms have "findFrom target 0 doc = Some container"
    by (simp add: getElementById_def split: if_splits)
  from found_element [OF this] obtain t a cs where "node_at container doc = Some (Element t a cs)"
    by blast
  from childNodes_set_element [OF this] show ?thesis
    by (simp add: set_innerHTML_def)
qed

text \<open>
  C2. Let the fetch give a response whose text is \<open>svg\<close>, and let \<^verbatim>\<open>target\<close> resolve
  to a container. The call of \<^verbatim>\<open>loadSVG\<close> returns \<^verbatim>\<open>undefined\<close>, and when its
  promise settles, the children of the container are the nodes parsed from \<open>svg\<close>
  (whatever they were before), \<^verbatim>\<open>gsap.set\<close> has been called once more, on the
  \<^verbatim>\<open>svg\<close> elements below the container (selector \<^verbatim>\<open>#target svg\<close>) with
  \<^verbatim>\<open>{x: x, y: y}\<close>, and nothing else has changed: that is the final world when
  \<^verbatim>\<open>loadSVG\<close> is given no callback, and when it is given one, it is the world in
  which \<^verbatim>\<open>loadSVG\<close> calls it, with no argument. (An exception of the callback is
  logged.)
\<close>

theorem loadSVG_success:
  assumes "fetch url = Inr r" and "body r = Inr svg"
    and "getElementById (document w) target = Some container"
  shows "(let w2 = w\<lparr>document := set_innerHTML parse container svg (document w),
                      gsap_sets := gsap_sets w @ [(''#'' @ target @ '' svg'', [(''x'', x), (''y'', y)])]\<rparr>
     in childNodes container (document w2) = parse svg
      \<and> fst (loadSVG fetch parse url target x y callback) = JUndefined
      \<and> snd (loadSVG fetch parse url target x y None) w = (Inr JUndefined, w2)
      \<and> (\<forall>cb. snd (loadSVG fetch parse url target x y (Some cb)) w =
            (case cb [] w2 of
               (Inr v, w3) \<Rightarrow> (Inr JUndefined, w3)
             | (Inl e, w3) \<Rightarrow>
                 (Inr JUndefined,
                  w3\<lparr>console := console w3 @ [(Error, [LStr ''Error loading SVG:'', LExn e])]\<rparr>))))"
proof -
  define w2 where "w2 = w\<lparr>document := set_innerHTML parse container svg (document w),
      gsap_sets := gsap_sets w @ [(''#'' @ target @ '' svg'', [(''x'', x), (''y'', y)])]\<rparr>"
  have children: "childNodes container (document w2) = parse svg"
    using assms(3) by (simp add: w2_def innerHTML_children)
  have chain: "loadSVG_chain fetch parse url target x y cbo w =
      (case cbo of None \<Rightarrow> (Inr JUndefined, w2)
       | Some cb \<Rightarrow> then_p (cb []) (\<lambda>v. settled (Inr JUndefined)) w2)" for cbo
    using assms
    by (simp add: loadSVG_chain_response loadSVG_insert_def w2_def gsap_set_def Let_def
        split: option.splits)
  have none: "snd (loadSVG fetch parse url target x y None) w = (Inr JUndefined, w2)"
    by (simp add: loadSVG_def loadSVG_settle_def catch_p_def chain)
  have some: "snd (loadSVG fetch parse url target x y (Some cb)) w =
          (case cb [] w2 of
             (Inr v, w3) \<Rightarrow> (Inr JUndefined, w3)
           | (Inl e, w3) \<Rightarrow>
               (Inr JUndefined,
                w3\<lparr>console := console w3 @ [(Error, [LStr ''Error loading SVG:'', LExn e])]\<rparr>))" for cb
    by (simp add: loadSVG_def loadSVG_settle_def catch_p_def chain then_p_def settled_def
        console_error_def split: prod.splits sum.splits)
  have "fst (loadSVG fetch parse url target x y callback) = JUndefined"
    by (simp add: loadSVG_def)
  with children none some show ?thesis
    unfolding Let_def w2_def [symmetric] by simp
qed

theorem loadSVG_success_witness:
  "snd (loadSVG net_example parse_example ''door.svg'' ''stage'' (JNum 100) (JNum 50) None) world_example
     = (Inr JUndefined,
        \<lparr>document =
           [Element ''html'' []
             [Element ''body'' []
               [Element ''svg'' [(''id'', ''stage'')] [Element ''svg'' [] []]]]],
         gsap_sets = [(''#stage svg'', [(''x'', JNum 100), (''y'', JNum 50)])],
         console = []\<rparr>)
   \<and> snd (loadSVG net_example parse_example ''door.svg'' ''stage'' (JNum 100) (JNum 50)
          (Some callback_example)) world_example
     = (Inr JUndefined,
        \<lparr>document =
           [Element ''html'' []
             [Element ''body'' []
               [Element ''svg'' [(''id'', ''stage'')] [Element ''svg'' [] []]]]],
         gsap_sets = [(''#stage svg'', [(''x'', JNum 100), (''y'', JNum 50)])],
         console = [(Log, [LStr ''loaded''])]\<rparr>)
   \<and> getElementById (document world_example) ''stage'' = Some [0, 0, 0]"
  using loadSVG_success [where fetch = net_example and url = "''door.svg''"
      and r = "\<lparr>status = 200, body = Inr ''<svg></svg>''\<rparr>" and svg = "''<svg></svg>''"
      and w = world_example and target = "''stage''" and container = "[0, 0, 0]"
      and parse = parse_example and x = "JNum 100" and y = "JNum 50"]
  by (simp add: net_example_def world_example_def doc_scene_def getElementById_def elem_id_def
      parse_example_def set_innerHTML_def callback_example_def Let_def)

text \<open>
  C3. When the fetch is rejected, or the text of the response is, or \<^verbatim>\<open>target\<close>
  resolves to no element, then the call of \<^verbatim>\<open>loadSVG\<close> returns \<^verbatim>\<open>undefined\<close>, its
  promise is fulfilled (nothing is thrown on), the world is the one before with exactly
  one more console entry, the error with the text \<^verbatim>\<open>Error loading SVG:\<close>, and this is
  so whatever the callback is: it is not called.
\<close>

theorem loadSVG_failure:
  assumes "fetch url = Inl e
      \<or> (\<exists>r. fetch url = Inr r \<and> body r = Inl e)
      \<or> (\<exists>r svg. fetch url = Inr r \<and> body r = Inr svg
            \<and> getElementById (document w) target = None \<and> e = TypeError)"
  shows "fst (loadSVG fetch parse url target x y callback) = JUndefined
    \<and> snd (loadSVG fetch parse url target x y callback) w =
        (Inr JUndefined,
         w\<lparr>console := console w @ [(Error, [LStr ''Error loading SVG:'', LExn e])]\<rparr>)
    \<and> snd (loadSVG fetch parse url target x y callback) w
        = snd (loadSVG fetch parse url target x y None) w"
proof -
  have "loadSVG_chain fetch parse url target x y cbo w = (Inl e, w)" for cbo
    using assms
    by (auto simp: loadSVG_chain_rejected loadSVG_chain_response loadSVG_insert_def)
  then show ?thesis
    by (simp add: loadSVG_def loadSVG_settle_def catch_p_def console_error_def)
qed


theorem loadSVG_failure_witness:
  "snd (loadSVG net_example parse_example ''nowhere.svg'' ''stage'' (JNum 100) (JNum 50) None) world_example
     = (Inr JUndefined,
        \<lparr>document = doc_scene, gsap_sets = [],
         console = [(Error, [LStr ''Error loading SVG:'', LExn (Thrown ''Failed to fetch'')])]\<rparr>)
   \<and> snd (loadSVG net_example parse_example ''cut.svg'' ''stage'' (JNum 100) (JNum 50) None) world_example
     = (Inr JUndefined,
        \<lparr>document = doc_scene, gsap_sets = [],
         console = [(Error, [LStr ''Error loading SVG:'', LExn (Thrown ''aborted'')])]\<rparr>)
   \<and> snd (loadSVG net_example parse_example ''door.svg'' ''attic'' (JNum 100) (JNum 50) None) world_example
     = (Inr JUndefined,
        \<lparr>document = doc_scene, gsap_sets = [],
         console = [(Error, [LStr ''Error loading SVG:'', LExn TypeError])]\<rparr>)"
  using loadSVG_failure [of net_example "''nowhere.svg''" "Thrown ''Failed to fetch''" world_example
      "''stage''" parse_example "JNum 100" "JNum 50" None]
    loadSVG_failure [of net_example "''cut.svg''" "Thrown ''aborted''" world_example
      "''stage''" parse_example "JNum 100" "JNum 50" None]
    loadSVG_failure [of net_example "''door.svg''" TypeError world_example
      "''attic''" parse_example "JNum 100" "JNum 50" None]
  by (simp add: net_example_def world_example_def doc_scene_def getElementById_def elem_id_def)

lemma loadSVG_part_000_eq:
  "loadSVG_part_000 fetch parse url target x y = loadSVG fetch parse url target x y None"
  by (simp add: loadSVG_part_000_def loadSVG_def loadSVG_settle_def loadSVG_chain_def
      loadSVG_insert_def Let_def cong: option.case_cong)

lemma loadSVG_cases:
  "snd (loadSVG fetch parse url target x y callback) w =
     (case fetch url of
        Inl e \<Rightarrow>
          (Inr JUndefined,
           w\<lparr>console := console w @ [(Error, [LStr ''Error loading SVG:'', LExn e])]\<rparr>)
      | Inr r \<Rightarrow>
          (case body r of
             Inl e \<Rightarrow>
               (Inr JUndefined,
                w\<lparr>console := console w @ [(Error, [LStr ''Error loading SVG:'', LExn e])]\<rparr>)
           | Inr svg \<Rightarrow>
               (case getElementById (document w) target of
                  None \<Rightarrow>
                    (Inr JUndefined,
                     w\<lparr>console := console w @
                         [(Error, [LStr ''Error loading SVG:'', LExn TypeError])]\<rparr>)
                | Some container \<Rightarrow>
                    (let w2 = w\<lparr>document := set_innerHTML parse container svg (document w),
                                 gsap_sets := gsap_sets w @
                                   [(''#'' @ target @ '' svg'', [(''x'', x), (''y'', y)])]\<rparr>
                     in case callback of
                          None \<Rightarrow> (Inr JUndefined, w2)
                        | Some cb \<Rightarrow>
                            (case cb [] w2 of
                               (Inr v, w3) \<Rightarrow> (Inr JUndefined, w3)
                             | (Inl e, w3) \<Rightarrow>
                                 (Inr JUndefined,
                                  w3\<lparr>console := console w3 @
                                      [(Error, [LStr ''Error loading SVG:'', LExn e])]\<rparr>))))))"
proof (cases "fetch url")
  case (Inl e)
  then show ?thesis
    by (simp add: loadSVG_def loadSVG_settle_def catch_p_def loadSVG_chain_def then_p_def
        settled_def console_error_def)
next
  case (Inr r)
  show ?thesis
  proof (cases "body r")
    case (Inl e)
    with Inr show ?thesis
      by (simp add: loadSVG_def loadSVG_settle_def catch_p_def loadSVG_chain_def then_p_def
          settled_def text_of_def console_error_def)
  next
    case body_ok: (Inr svg)
    have chain: "loadSVG_chain fetch parse url target x y cbo w
        = loadSVG_insert parse target x y cbo svg w" for cbo
      using Inr body_ok by (rule loadSVG_chain_response)
    show ?thesis
    proof (cases "getElementById (document w) target")
      case None
      with Inr body_ok show ?thesis
        by (simp add: loadSVG_def loadSVG_settle_def catch_p_def chain loadSVG_insert_def
            console_error_def)
    next
      case (Some container)
      show ?thesis
      proof (cases callback)
        case None
        with Inr body_ok Some show ?thesis
          by (simp add: loadSVG_def loadSVG_settle_def catch_p_def chain loadSVG_insert_def
              gsap_set_def Let_def)
      next
        case cb: (Some cb)
        with Inr body_ok Some show ?thesis
          by (simp add: loadSVG_def loadSVG_settle_def catch_p_def chain loadSVG_insert_def
              gsap_set_def then_p_def settled_def console_error_def Let_def
              split: prod.splits sum.splits)
      qed
    qed
  qed
qed

lemma loadSVG_any_status:
  "fetch url = Inr \<lparr>status = s, body = Inr svg\<rparr>
      \<and> getElementById (document w) target = Some container \<longrightarrow>
    snd (loadSVG fetch parse url target x y callback) w =
      (let w2 = w\<lparr>document := set_innerHTML parse container svg (document w),
                   gsap_sets := gsap_sets w @ [(''#'' @ target @ '' svg'', [(''x'', x), (''y'', y)])]\<rparr>
       in case callback of
            None \<Rightarrow> (Inr JUndefined, w2)
          | Some cb \<Rightarrow>
              (case cb [] w2 of
                 (Inr v, w3) \<Rightarrow> (Inr JUndefined, w3)
               | (Inl e, w3) \<Rightarrow>
                   (Inr JUndefined,
                    w3\<lparr>console := console w3 @
                        [(Error, [LStr ''Error loading SVG:'', LExn e])]\<rparr>)))"
  by (simp add: loadSVG_cases)

lemma loadSVG_returns_undefined:
  "fst (loadSVG fetch parse url target x y callback) = JUndefined"
  by (simp add: loadSVG_def)

text \<open>
  C9. \<^verbatim>\<open>loadSVG\<close> does not look at the HTTP status of the response: for every status
  (404 too), a response with text \<open>svg\<close> and an existing container lead to the
  insertion, the call of \<^verbatim>\<open>gsap.set\<close> and, when \<^verbatim>\<open>loadSVG\<close> was given a callback,
  the call of it. What the promise of \<^verbatim>\<open>loadSVG\<close> does is settled by four questions
  only, and the error is logged exactly when the fetch is rejected, the text of the
  response is, the container is missing (a \<^verbatim>\<open>TypeError\<close>) or the callback throws
  (\<^verbatim>\<open>gsap.set\<close> being taken to return). The call itself returns \<^verbatim>\<open>undefined\<close>. The
  copy of \<^verbatim>\<open>loadSVG\<close> without callback parameter is \<^verbatim>\<open>loadSVG\<close> without callback.
\<close>

theorem loadSVG_status_ignored:
  "(fetch url = Inr \<lparr>status = s, body = Inr svg\<rparr>
      \<and> getElementById (document w) target = Some container \<longrightarrow>
    snd (loadSVG fetch parse url target x y callback) w =
      (let w2 = w\<lparr>document := set_innerHTML parse container svg (document w),
                   gsap_sets := gsap_sets w @ [(''#'' @ target @ '' svg'', [(''x'', x), (''y'', y)])]\<rparr>
       in case callback of
            None \<Rightarrow> (Inr JUndefined, w2)
          | Some cb \<Rightarrow>
              (case cb [] w2 of
                 (Inr v, w3) \<Rightarrow> (Inr JUndefined, w3)
               | (Inl e, w3) \<Rightarrow>
                   (Inr JUndefined,
                    w3\<lparr>console := console w3 @
                        [(Error, [LStr ''Error loading SVG:'', LExn e])]\<rparr>))))
   \<and> snd (loadSVG fetch parse url target x y callback) w =
     (case fetch url of
        Inl e \<Rightarrow>
          (Inr JUndefined,
           w\<lparr>console := console w @ [(Error, [LStr ''Error loading SVG:'', LExn e])]\<rparr>)
      | Inr r \<Rightarrow>
          (case body r of
             Inl e \<Rightarrow>
               (Inr JUndefined,
                w\<lparr>console := console w @ [(Error, [LStr ''Error loading SVG:'', LExn e])]\<rparr>)
           | Inr svg \<Rightarrow>
               (case getElementById (document w) target of
                  None \<Rightarrow>
                    (Inr JUndefined,
                     w\<lparr>console := console w @
                         [(Error, [LStr ''Error loading SVG:'', LExn TypeError])]\<rparr>)
                | Some container \<Rightarrow>
                    (let w2 = w\<lparr>document := set_innerHTML parse container svg (document w),
                                 gsap_sets := gsap_sets w @
                                   [(''#'' @ target @ '' svg'', [(''x'', x), (''y'', y)])]\<rparr>
                     in case callback of
                          None \<Rightarrow> (Inr JUndefined, w2)
                        | Some cb \<Rightarrow>
                            (case cb [] w2 of
                               (Inr v, w3) \<Rightarrow> (Inr JUndefined, w3)
                             | (Inl e, w3) \<Rightarrow>
                                 (Inr JUndefined,
                                  w3\<lparr>console := console w3 @
                                      [(Error, [LStr ''Error loading SVG:'', LExn e])]\<rparr>))))))
   \<and> fst (loadSVG fetch parse url target x y callback) = JUndefined
   \<and> loadSVG_part_000 fetch parse url target x y = loadSVG fetch parse url target x y None"
  by (rule conjI [OF loadSVG_any_status
        conjI [OF loadSVG_cases conjI [OF loadSVG_returns_undefined loadSVG_part_000_eq]]])

theorem loadSVG_status_ignored_witness:
  "net_example ''gone.svg'' = Inr \<lparr>status = 404, body = Inr ''Not Found''\<rparr>
   \<and> snd (loadSVG net_example parse_example ''gone.svg'' ''stage'' (JNum 0) (JNum 0)
          (Some callback_example)) world_example
     = (Inr JUndefined,
        \<lparr>document =
           [Element ''html'' []
             [Element ''body'' []
               [Element ''svg'' [(''id'', ''stage'')] [Text ''Not Found'']]]],
         gsap_sets = [(''#stage svg'', [(''x'', JNum 0), (''y'', JNum 0)])],
         console = [(Log, [LStr ''loaded''])]\<rparr>)"
  using loadSVG_status_ignored [where fetch = net_example and url = "''gone.svg''" and s = 404
      and svg = "''Not Found''" and w = world_example and target = "''stage''"
      and container = "[0, 0, 0]" and parse = parse_example and x = "JNum 0" and y = "JNum 0"
      and callback = "Some callback_example"]
  by (simp add: net_example_def world_example_def doc_scene_def getElementById_def elem_id_def
      parse_example_def set_innerHTML_def callback_example_def Let_def)

end
